theory Spec2Isabelle
  imports Complex_Main
begin

section \<open>Data model of the communicator\<close>

text \<open>
  The module \<^verbatim>\<open>kucher/model/device_model/communicator.py\<close> is embedded function by
  function. Python values that the code inspects with \<^verbatim>\<open>isinstance\<close> become
  constructors of a datatype; every \<^verbatim>\<open>raise\<close> is a value \<open>Inl e\<close> of a sum type and
  every function that mutates the communicator returns the new state next to its result,
  also when it raises (a mutation made before the raise stays).
\<close>

type_synonym bytes = "nat list"

text \<open>Exceptions the code raises or handles. All of them derive from \<^verbatim>\<open>Exception\<close>.\<close>

datatype py_error =
    TypeError
  | ValueError
  | KeyError
  | CommunicatorException
  | InvalidStateError
  | TimeoutError
  | CancelledError
  | ChannelClosedException
  | OtherException string

text \<open>
  \<^verbatim>\<open>MessageType\<close> and \<^verbatim>\<open>Message\<close> come from the sibling module \<^verbatim>\<open>.messages\<close>; the
  communicator reads only the attribute \<^verbatim>\<open>type\<close> of a message. A standard message is an
  instance of a class derived from \<^verbatim>\<open>popcop.standard.MessageBase\<close>. A class is known by
  its name and the names of its proper ancestors, which is what \<^verbatim>\<open>isinstance\<close> consults.
\<close>

datatype message_type = MessageType nat

datatype message = Message (msg_type: message_type) (msg_fields: "(string \<times> int) list")

datatype py_class = PyClass (cls_name: string) (cls_bases: "string list")

datatype standard_message =
  StandardMessage (std_class: py_class) (std_fields: "(string \<times> int) list")

datatype any_message = App message | Std standard_message

datatype received_frame = ReceivedFrame nat bytes

text \<open>
  What the dynamically typed parameter \<^verbatim>\<open>message_or_type\<close> / \<^verbatim>\<open>reference\<close> can hold:
  an application message, a \<^verbatim>\<open>MessageType\<close> member, a standard message, a class
  (an instance of \<^verbatim>\<open>type\<close>), or anything else.
\<close>

datatype py_value =
    VMessage message
  | VMessageType message_type
  | VStandard standard_message
  | VType py_class
  | VOther

text \<open>What the channel hands to \<^verbatim>\<open>_process_received_item\<close>.\<close>

datatype item = ItemStandard standard_message | ItemFrame received_frame | ItemOther

text \<open>Records written through \<^verbatim>\<open>_logger\<close>, one constructor per call in the source.\<close>

datatype log_entry =
    DebugReceivedLogString string
  | DebugReceivedItem item
  | InfoChannelClosed py_error
  | ErrorUnhandledIOWorker nat py_error
  | ErrorTooManyErrors
  | InfoWorkerStopping
  | WarningCodecNotInitialized item
  | WarningCouldNotDecode item
  | DebugMatchingResponse item nat
  | ErrorResponsePredicate py_value py_error

text \<open>
  The codec (class \<^verbatim>\<open>Codec\<close> of \<^verbatim>\<open>.messages\<close>) is taken as a parameter: a pair of
  functions, each of which may raise.
\<close>

record codec =
  encode :: "message \<Rightarrow> py_error + (nat \<times> bytes)"
  decode :: "received_frame \<Rightarrow> py_error + message"

text \<open>
  The transport channel (\<^verbatim>\<open>popcop.physical.serial_multiprocessing.Channel\<close>) is an
  external library, known here by its interface: the model keeps whether it is open and
  the trace of what was handed to it. A send on an open channel only appends to the
  trace (the docstring of \<^verbatim>\<open>_do_send\<close>: the message is dumped into the channel's
  queue and the call returns at once); a send on a closed channel fails, as the
  specification requires of the transport, and leaves the trace as it is.
\<close>

datatype sent_item = SentStandard py_value | SentApplicationSpecific nat bytes

record channel =
  is_open :: bool
  sent :: "sent_item list"

definition send_standard :: "py_value \<Rightarrow> channel \<Rightarrow> (py_error + unit) \<times> channel" where
  "send_standard message_or_type c =
     (if is_open c then (Inr (), c\<lparr>sent := sent c @ [SentStandard message_or_type]\<rparr>)
      else (Inl ChannelClosedException, c))"

definition send_application_specific ::
  "nat \<Rightarrow> bytes \<Rightarrow> channel \<Rightarrow> (py_error + unit) \<times> channel" where
  "send_application_specific frame_type_code payload c =
     (if is_open c
      then (Inr (), c\<lparr>sent := sent c @ [SentApplicationSpecific frame_type_code payload]\<rparr>)
      else (Inl ChannelClosedException, c))"

definition close :: "channel \<Rightarrow> channel" where
  "close c = c\<lparr>is_open := False\<rparr>"

text \<open>
  An \<^verbatim>\<open>asyncio.Future\<close> is an object on the heap: \<open>futures\<close> maps its identity to its
  state. \<^verbatim>\<open>set_result\<close> raises on a future that is already done; \<^verbatim>\<open>cancel\<close> changes
  only a pending future.
\<close>

datatype future_state = Pending | Finished any_message | Cancelled

type_synonym future_heap = "nat \<Rightarrow> future_state"

definition future_done :: "future_heap \<Rightarrow> nat \<Rightarrow> bool" where
  "future_done fs future = (fs future \<noteq> Pending)"

definition set_result :: "nat \<Rightarrow> any_message \<Rightarrow> future_heap \<Rightarrow> py_error + future_heap" where
  "set_result future m fs =
     (if fs future \<noteq> Pending then Inl InvalidStateError else Inr (fs(future := Finished m)))"

definition cancel :: "nat \<Rightarrow> future_heap \<Rightarrow> future_heap" where
  "cancel future fs = (if fs future = Pending then fs(future := Cancelled) else fs)"

text \<open>
  The only statement that adds to \<^verbatim>\<open>_pending_requests\<close> is line 212 of \<^verbatim>\<open>request\<close>, and
  the callable of the entry it adds is always the closure \<^verbatim>\<open>super_predicate\<close>. A closure
  is modelled by the variables it captures: \<^verbatim>\<open>message_or_type\<close> and \<^verbatim>\<open>predicate\<close>
  (after the default has been filled in). The caller's predicate returns a truth value
  or raises.
\<close>

type_synonym response_predicate = "any_message \<Rightarrow> py_error + bool"

datatype closure = SuperPredicate py_value response_predicate

type_synonym entry = "closure \<times> nat"

record communicator =
  ch :: channel
  codec :: "codec option"
  log_queue :: "string list"
  message_queue :: "any_message list"
  pending_requests :: "entry list"
  futures :: future_heap
  next_future :: nat
  logger :: "log_entry list"

section \<open>The send path\<close>

text \<open>
  \<^verbatim>\<open>_do_send\<close>, lines 141 to 149: the two branches. A value that is neither an
  application message nor a standard message nor a class takes no branch.
\<close>

definition do_send_branches ::
  "py_value \<Rightarrow> communicator \<Rightarrow> (py_error + unit) \<times> communicator" where
  "do_send_branches message_or_type st =
     (case message_or_type of
        VMessage msg \<Rightarrow>
          (case codec st of
             None \<Rightarrow> (Inl CommunicatorException, st)
           | Some c \<Rightarrow>
               (case encode c msg of
                  Inl e \<Rightarrow> (Inl e, st)
                | Inr (frame_type_code, payload) \<Rightarrow>
                    (case send_application_specific frame_type_code payload (ch st) of
                       (r, c') \<Rightarrow> (r, st\<lparr>ch := c'\<rparr>))))
      | VStandard s \<Rightarrow>
          (case send_standard message_or_type (ch st) of (r, c') \<Rightarrow> (r, st\<lparr>ch := c'\<rparr>))
      | VType t \<Rightarrow>
          (case send_standard message_or_type (ch st) of (r, c') \<Rightarrow> (r, st\<lparr>ch := c'\<rparr>))
      | VMessageType t \<Rightarrow> (Inr (), st)
      | VOther \<Rightarrow> (Inr (), st))"

text \<open>
  \<^verbatim>\<open>_do_send\<close>, whole: line 151 is not under an \<^verbatim>\<open>else\<close>, so the \<^verbatim>\<open>raise TypeError\<close>
  is reached whenever the branches did not raise themselves.
\<close>

definition do_send :: "py_value \<Rightarrow> communicator \<Rightarrow> (py_error + unit) \<times> communicator" where
  "do_send message_or_type st =
     (case do_send_branches message_or_type st of
        (Inl e, st') \<Rightarrow> (Inl e, st')
      | (Inr u, st') \<Rightarrow> (Inl TypeError, st'))"

definition send :: "py_value \<Rightarrow> communicator \<Rightarrow> (py_error + unit) \<times> communicator" where
  "send msg st = do_send msg st"

definition set_protocol_version :: "codec \<Rightarrow> communicator \<Rightarrow> communicator" where
  \<comment> \<open>the argument is the instance \<^verbatim>\<open>Codec(major_minor)\<close>\<close>
  "set_protocol_version c st = st\<lparr>codec := Some c\<rparr>"

section \<open>Identity matching and the composite predicate\<close>

definition isinstance :: "standard_message \<Rightarrow> py_class \<Rightarrow> bool" where
  "isinstance candidate cls =
     (cls_name cls = cls_name (std_class candidate)
      \<or> cls_name cls \<in> set (cls_bases (std_class candidate)))"

text \<open>\<^verbatim>\<open>_match_message\<close>, lines 160 to 163: a prototype is replaced by its type.\<close>

definition eliminate_prototype :: "py_value \<Rightarrow> py_value" where
  "eliminate_prototype reference =
     (case reference of
        VStandard s \<Rightarrow> VType (std_class s)
      | VMessage msg \<Rightarrow> VMessageType (msg_type msg)
      | r \<Rightarrow> r)"

text \<open>
  \<^verbatim>\<open>_match_message\<close>: the result is \<open>Some b\<close> for a returned truth value and \<open>None\<close>
  where the function falls off its end and so returns Python's \<^verbatim>\<open>None\<close>.
\<close>

definition match_message :: "py_value \<Rightarrow> any_message \<Rightarrow> bool option" where
  "match_message reference candidate =
     (case (candidate, eliminate_prototype reference) of
        (App c, VMessageType t) \<Rightarrow> Some (msg_type c = t)
      | (Std c, VType t) \<Rightarrow> Some (isinstance c t)
      | _ \<Rightarrow> None)"

definition truthy :: "bool option \<Rightarrow> bool" where
  "truthy v = (v = Some True)"

text \<open>
  \<^verbatim>\<open>super_predicate\<close>, lines 201 to 207: the value it returns (\<open>None\<close> where it falls off
  its end) and what it logged.
\<close>

definition super_predicate ::
  "py_value \<Rightarrow> response_predicate \<Rightarrow> any_message \<Rightarrow> bool option \<times> log_entry list" where
  "super_predicate message_or_type predicate item =
     (if truthy (match_message message_or_type item) then
        (case predicate item of
           Inr b \<Rightarrow> (Some b, [])
         | Inl ex \<Rightarrow> (None, [ErrorResponsePredicate message_or_type ex]))
      else (None, []))"

fun call :: "closure \<Rightarrow> any_message \<Rightarrow> bool option \<times> log_entry list" where
  "call (SuperPredicate message_or_type predicate) item =
     super_predicate message_or_type predicate item"

text \<open>Line 199: the default predicate accepts everything.\<close>

definition default_predicate :: "response_predicate option \<Rightarrow> response_predicate" where
  "default_predicate predicate = (case predicate of Some p \<Rightarrow> p | None \<Rightarrow> (\<lambda>_. Inr True))"

section \<open>The dispatch core\<close>

text \<open>
  \<^verbatim>\<open>_process_received_item\<close>, lines 126 to 130: the loop over the pending set, in the
  order the set is iterated. The flag is \<^verbatim>\<open>at_least_one_match\<close>. \<^verbatim>\<open>set_result\<close> only
  marks the future and schedules its callbacks, so the set is not changed while it is
  iterated.
\<close>

fun match_pending ::
  "item \<Rightarrow> any_message \<Rightarrow> entry list \<Rightarrow> bool \<Rightarrow> communicator
     \<Rightarrow> (py_error + bool) \<times> communicator" where
  "match_pending item m [] at_least_one_match st = (Inr at_least_one_match, st)"
| "match_pending item m ((predicate, future) # es) at_least_one_match st =
     (if future_done (futures st) future then match_pending item m es at_least_one_match st
      else
        (case call predicate m of
           (v, lg) \<Rightarrow>
             (if truthy v then
                (case set_result future m (futures st) of
                   Inl e \<Rightarrow>
                     (Inl e, st\<lparr>logger := logger st @ lg @ [DebugMatchingResponse item future]\<rparr>)
                 | Inr fs \<Rightarrow>
                     match_pending item m es True
                       (st\<lparr>logger := logger st @ lg @ [DebugMatchingResponse item future],
                           futures := fs\<rparr>))
              else match_pending item m es at_least_one_match (st\<lparr>logger := logger st @ lg\<rparr>))))"

text \<open>Lines 125 to 133: the matching pass, then the queue.\<close>

definition dispatch ::
  "item \<Rightarrow> any_message \<Rightarrow> communicator \<Rightarrow> (py_error + unit) \<times> communicator" where
  "dispatch item m st =
     (case match_pending item m (pending_requests st) False st of
        (Inl e, st') \<Rightarrow> (Inl e, st')
      | (Inr at_least_one_match, st') \<Rightarrow>
          (if \<not> at_least_one_match
           then (Inr (), st'\<lparr>message_queue := message_queue st' @ [m]\<rparr>)
           else (Inr (), st')))"

definition process_received_item ::
  "item \<Rightarrow> communicator \<Rightarrow> (py_error + unit) \<times> communicator" where
  "process_received_item item st =
     (case item of
        ItemStandard s \<Rightarrow> dispatch item (Std s) st
      | ItemFrame fr \<Rightarrow>
          (case codec st of
             None \<Rightarrow> (Inr (), st\<lparr>logger := logger st @ [WarningCodecNotInitialized item]\<rparr>)
           | Some c \<Rightarrow>
               (case decode c fr of
                  Inl e \<Rightarrow> (Inr (), st\<lparr>logger := logger st @ [WarningCouldNotDecode item]\<rparr>)
                | Inr msg \<Rightarrow> dispatch item (App msg) st))
      | ItemOther \<Rightarrow> (Inl TypeError, st))"

section \<open>Requests\<close>

text \<open>
  The pending set is kept as the list of its elements. \<^verbatim>\<open>set.add\<close> leaves a set that
  already holds the element as it is; \<^verbatim>\<open>set.remove\<close> raises \<^verbatim>\<open>KeyError\<close> for an element
  that is not there. Python compares the elements, tuples of a function and a future, by
  the identity of both objects; every call of \<^verbatim>\<open>request\<close> creates both afresh, so two
  entries of the set never share a future, and the identity of the future (a number
  taken from the counter \<open>next_future\<close>) tells the entries apart.
\<close>

definition set_add :: "'a \<Rightarrow> 'a list \<Rightarrow> 'a list" where
  "set_add e es = (if e \<in> set es then es else es @ [e])"

definition set_remove :: "'a \<Rightarrow> 'a list \<Rightarrow> py_error + 'a list" where
  "set_remove e es = (if e \<in> set es then Inr (remove1 e es) else Inl KeyError)"

text \<open>
  \<^verbatim>\<open>request\<close>, lines 199 to 212: the closure and the future are created and the entry is
  added; the coroutine then suspends in \<^verbatim>\<open>wait_for\<close>. The entry is returned: it is the
  local variable the suspended call keeps.
\<close>

definition register_entry ::
  "py_value \<Rightarrow> response_predicate option \<Rightarrow> communicator \<Rightarrow> entry \<times> communicator" where
  "register_entry message_or_type predicate st =
     (let future = next_future st;
          entry = (SuperPredicate message_or_type (default_predicate predicate), future)
      in (entry,
          st\<lparr>futures := (futures st)(future := Pending),
             next_future := Suc future,
             pending_requests := set_add entry (pending_requests st)\<rparr>))"

text \<open>\<^verbatim>\<open>request\<close> from its first line to the point where it suspends.\<close>

definition request ::
  "py_value \<Rightarrow> real \<Rightarrow> response_predicate option \<Rightarrow> communicator
     \<Rightarrow> (py_error + entry) \<times> communicator" where
  "request message_or_type timeout predicate st =
     (if timeout \<le> 0 then (Inl ValueError, st)
      else
        (case do_send message_or_type st of
           (Inl e, st1) \<Rightarrow> (Inl e, st1)
         | (Inr u, st1) \<Rightarrow>
             (case register_entry message_or_type predicate st1 of
                (entry, st2) \<Rightarrow> (Inr entry, st2))))"

text \<open>
  How the suspended call is resumed: the waiter of \<^verbatim>\<open>asyncio.wait_for\<close> was released
  (by the future's completion or by the timer), or the task was cancelled. On release
  \<^verbatim>\<open>wait_for\<close> returns the result of a future that is done, and otherwise cancels the
  future and raises \<^verbatim>\<open>TimeoutError\<close>; on cancellation it cancels the future and lets
  \<^verbatim>\<open>CancelledError\<close> through.
\<close>

datatype wake = Released | TaskCancelled

definition wait_for :: "nat \<Rightarrow> wake \<Rightarrow> future_heap \<Rightarrow> (py_error + any_message) \<times> future_heap" where
  "wait_for future w fs =
     (case w of
        TaskCancelled \<Rightarrow> (Inl CancelledError, cancel future fs)
      | Released \<Rightarrow>
          (case fs future of
             Finished m \<Rightarrow> (Inr m, fs)
           | Cancelled \<Rightarrow> (Inl CancelledError, fs)
           | Pending \<Rightarrow> (Inl TimeoutError, cancel future fs)))"

text \<open>
  \<^verbatim>\<open>request\<close>, lines 213 to 217, from the resumption on: the outcome of \<^verbatim>\<open>wait_for\<close>,
  the \<^verbatim>\<open>except\<close> clause, and the \<^verbatim>\<open>finally\<close> clause, whose own exception would
  replace the outcome.
\<close>

definition request_resume ::
  "entry \<Rightarrow> wake \<Rightarrow> communicator \<Rightarrow> (py_error + any_message option) \<times> communicator" where
  "request_resume entry w st =
     (case wait_for (snd entry) w (futures st) of
        (r, fs) \<Rightarrow>
          (let st1 = st\<lparr>futures := fs\<rparr>;
               outcome = (case r of
                            Inr m \<Rightarrow> Inr (Some m)
                          | Inl e \<Rightarrow> (if e = TimeoutError then Inr None else Inl e))
           in (case set_remove entry (pending_requests st1) of
                 Inl k \<Rightarrow> (Inl k, st1)
               | Inr ps \<Rightarrow> (outcome, st1\<lparr>pending_requests := ps\<rparr>))))"

text \<open>
  What runs on the event loop, one callback or coroutine step at a time: an item handed
  over by the IO worker, the registration of a request, the resumption of a suspended
  request, a send, and the selection of a protocol version. A request can be resumed
  only while it is suspended, that is while its entry is in the pending set.
\<close>

datatype event =
    EvItem item
  | EvRegister py_value "response_predicate option"
  | EvResume entry wake
  | EvSend py_value
  | EvSetProtocolVersion codec

fun step :: "event \<Rightarrow> communicator \<Rightarrow> communicator option" where
  "step (EvItem i) st = Some (snd (process_received_item i st))"
| "step (EvRegister r p) st = Some (snd (register_entry r p st))"
| "step (EvResume e w) st =
     (if e \<in> set (pending_requests st) then Some (snd (request_resume e w st)) else None)"
| "step (EvSend v) st = Some (snd (send v st))"
| "step (EvSetProtocolVersion c) st = Some (set_protocol_version c st)"




text \<open>
  The state the entries of concurrent requests are in: each entry has a future of its
  own, allocated before the next one.
\<close>

definition well_formed :: "communicator \<Rightarrow> bool" where
  "well_formed st = (distinct (map snd (pending_requests st))
            \<and> list_all (\<lambda>e. snd e < next_future st) (pending_requests st))"

section \<open>The IO worker\<close>

text \<open>
  One pass of the loop of \<^verbatim>\<open>_thread_entry\<close> reads from the outside: whether the channel
  was closed by someone else since the last pass, what \<^verbatim>\<open>receive\<close> did, and whether
  \<^verbatim>\<open>call_soon_threadsafe\<close> raised.
\<close>

datatype received =
    RetBytes bytes
  | RetNone
  | RetItem item
  | RaiseReceive py_error

record pass =
  closed_outside :: bool
  received :: received
  call_soon_raises :: "py_error option"

datatype callback = PutLog string | ProcessReceivedItem item

record worker =
  wch :: channel
  error_counter :: nat
  scheduled :: "callback list"
  wlogger :: "log_entry list"

definition IO_WORKER_ERROR_LIMIT :: nat where
  "IO_WORKER_ERROR_LIMIT = 100"

text \<open>Lines 79 to 88, the body of the \<^verbatim>\<open>try\<close>: \<open>None\<close> when it completed.\<close>

definition try_body :: "(bytes \<Rightarrow> string) \<Rightarrow> pass \<Rightarrow> worker \<Rightarrow> py_error option \<times> worker" where
  "try_body utf8 p w =
     (case received p of
        RaiseReceive e \<Rightarrow> (Some e, w)
      | RetBytes ret \<Rightarrow>
          (let log_str = utf8 ret;
               w1 = w\<lparr>wlogger := wlogger w @ [DebugReceivedLogString log_str]\<rparr>
           in (case call_soon_raises p of
                 Some e \<Rightarrow> (Some e, w1)
               | None \<Rightarrow> (None, w1\<lparr>scheduled := scheduled w1 @ [PutLog log_str]\<rparr>)))
      | RetNone \<Rightarrow> (None, w)
      | RetItem ret \<Rightarrow>
          (let w1 = w\<lparr>wlogger := wlogger w @ [DebugReceivedItem ret]\<rparr>
           in (case call_soon_raises p of
                 Some e \<Rightarrow> (Some e, w1)
               | None \<Rightarrow> (None, w1\<lparr>scheduled := scheduled w1 @ [ProcessReceivedItem ret]\<rparr>))))"

datatype stop_cause = ChannelNotOpen | ChannelClosedSignal | TooManyErrors

text \<open>
  Lines 76 to 103, the loop. It consumes one \<open>pass\<close> per iteration; the result is
  \<open>None\<close> when the passes given are used up and the loop is still running.
\<close>

fun thread_loop ::
  "(bytes \<Rightarrow> string) \<Rightarrow> pass list \<Rightarrow> worker \<Rightarrow> stop_cause option \<times> worker" where
  "thread_loop utf8 [] w = (None, w)"
| "thread_loop utf8 (p # ps) w =
     (let w0 = (if closed_outside p then w\<lparr>wch := close (wch w)\<rparr> else w) in
      if \<not> is_open (wch w0) then (Some ChannelNotOpen, w0)
      else
        (case try_body utf8 p w0 of
           (None, w1) \<Rightarrow> thread_loop utf8 ps (w1\<lparr>error_counter := 0\<rparr>)
         | (Some ex, w1) \<Rightarrow>
             (if ex = ChannelClosedException
              then (Some ChannelClosedSignal, w1\<lparr>wlogger := wlogger w1 @ [InfoChannelClosed ex]\<rparr>)
              else
                (let n = error_counter w1 + 1;
                     w2 = w1\<lparr>error_counter := n,
                             wlogger := wlogger w1 @ [ErrorUnhandledIOWorker n ex]\<rparr>
                 in if n > IO_WORKER_ERROR_LIMIT
                    then (Some TooManyErrors, w2\<lparr>wlogger := wlogger w2 @ [ErrorTooManyErrors]\<rparr>)
                    else thread_loop utf8 ps w2))))"

text \<open>\<^verbatim>\<open>_thread_entry\<close>: the counter starts at zero; lines 105 and 106 follow the loop.\<close>

definition thread_entry ::
  "(bytes \<Rightarrow> string) \<Rightarrow> pass list \<Rightarrow> worker \<Rightarrow> stop_cause option \<times> worker" where
  "thread_entry utf8 ps w =
     (case thread_loop utf8 ps (w\<lparr>error_counter := 0\<rparr>) of
        (None, w') \<Rightarrow> (None, w')
      | (Some cause, w') \<Rightarrow>
          (Some cause, w'\<lparr>wlogger := wlogger w' @ [InfoWorkerStopping], wch := close (wch w')\<rparr>))"

section \<open>Notions used in the statements\<close>

text \<open>
  The message a received item yields (lines 109 to 123): a standard message is the
  message itself, a frame is decoded by the bound codec; nothing is yielded without a
  codec, on a decode failure, or for an item of another type.
\<close>

definition decoded :: "item \<Rightarrow> communicator \<Rightarrow> any_message option" where
  "decoded item st =
     (case item of
        ItemStandard s \<Rightarrow> Some (Std s)
      | ItemFrame fr \<Rightarrow>
          (case codec st of
             None \<Rightarrow> None
           | Some c \<Rightarrow> (case decode c fr of Inl e \<Rightarrow> None | Inr msg \<Rightarrow> Some (App msg)))
      | ItemOther \<Rightarrow> None)"

text \<open>
  An entry matches a message when the condition of line 127 holds for it: its future is
  not done and its predicate returns a true value.
\<close>

definition matches :: "any_message \<Rightarrow> future_heap \<Rightarrow> entry \<Rightarrow> bool" where
  "matches m fs e = (\<not> future_done fs (snd e) \<and> truthy (fst (call (fst e) m)))"

text \<open>
  The combinations the type dispatch of \<^verbatim>\<open>_match_message\<close> covers: the conditions of
  lines 165 and 167.
\<close>

definition recognised :: "py_value \<Rightarrow> any_message \<Rightarrow> bool" where
  "recognised reference candidate =
     (case (candidate, eliminate_prototype reference) of
        (App c, VMessageType t) \<Rightarrow> True
      | (Std c, VType t) \<Rightarrow> True
      | _ \<Rightarrow> False)"

text \<open>Concrete values for the examples: a communicator as \<^verbatim>\<open>__init__\<close> leaves it, and
  a standard message of a class derived from the base class.\<close>

definition fresh :: communicator where
  "fresh = \<lparr>ch = \<lparr>is_open = True, sent = []\<rparr>, codec = None, log_queue = [],
     message_queue = [], pending_requests = [], futures = (\<lambda>_. Pending), next_future = 0,
     logger = []\<rparr>"

definition node_info :: standard_message where
  "node_info = StandardMessage (PyClass ''NodeInfoMessage'' [''MessageBase'', ''object'']) []"

definition three_pending :: communicator where
  "three_pending = fresh\<lparr>pending_requests :=
      [(SuperPredicate (VStandard node_info) (\<lambda>_. Inr True), 0),
       (SuperPredicate (VType (std_class node_info)) (\<lambda>_. Inr True), 1),
       (SuperPredicate (VMessageType (MessageType 3)) (\<lambda>_. Inr True), 2)],
      next_future := 3\<rparr>"



definition failing_codec :: codec where
  "failing_codec = \<lparr>encode = (\<lambda>_. Inl ValueError), decode = (\<lambda>_. Inl ValueError)\<rparr>"

definition raising_pending :: communicator where
  "raising_pending = fresh\<lparr>pending_requests :=
      [(SuperPredicate (VStandard node_info) (\<lambda>_. Inl (OtherException ''boom'')), 0),
       (SuperPredicate (VType (std_class node_info)) (\<lambda>_. Inr True), 1)],
      next_future := 2\<rparr>"

text \<open>
  What the \<^verbatim>\<open>try\<close> body of a pass raises, and the passes that count as an error: the
  channel is still open and an exception other than the channel-closed signal is raised.
\<close>

definition try_raises :: "pass \<Rightarrow> py_error option" where
  "try_raises p =
     (case received p of
        RaiseReceive e \<Rightarrow> Some e
      | RetNone \<Rightarrow> None
      | RetBytes ret \<Rightarrow> call_soon_raises p
      | RetItem ret \<Rightarrow> call_soon_raises p)"

definition failing :: "pass \<Rightarrow> bool" where
  "failing p =
     (\<not> closed_outside p
      \<and> (case try_raises p of Some ex \<Rightarrow> ex \<noteq> ChannelClosedException | None \<Rightarrow> False))"

text \<open>Concrete passes and a worker at the start of \<^verbatim>\<open>_thread_entry\<close>.\<close>

definition io_error :: pass where
  "io_error = \<lparr>closed_outside = False, received = RaiseReceive (OtherException ''io''),
               call_soon_raises = None\<rparr>"

definition idle :: pass where
  "idle = \<lparr>closed_outside = False, received = RetNone, call_soon_raises = None\<rparr>"

definition new_worker :: worker where
  "new_worker = \<lparr>wch = \<lparr>is_open = True, sent = []\<rparr>, error_counter = 0, scheduled = [],
                 wlogger = []\<rparr>"








section \<open>The send path: theorems\<close>

text \<open>
  C1. The claim is that every accepted message is sent and the call returns without
  raising. The code sends, and then raises: the \<^verbatim>\<open>raise TypeError\<close> of line 151 follows
  the \<^verbatim>\<open>if\<close>/\<^verbatim>\<open>elif\<close> without an \<^verbatim>\<open>else\<close>. No call of \<^verbatim>\<open>_do_send\<close> returns normally;
  a standard message on an open channel is handed to the transport and the call raises
  \<^verbatim>\<open>TypeError\<close>.
\<close>

theorem do_send_never_returns:
  "fst (do_send message_or_type st) \<noteq> Inr ()
   \<and> do_send (VStandard s) (st\<lparr>ch := \<lparr>is_open = True, sent = xs\<rparr>\<rparr>)
       = (Inl TypeError,
          st\<lparr>ch := \<lparr>is_open = True, sent = xs @ [SentStandard (VStandard s)]\<rparr>\<rparr>)"
  by (simp add: do_send_def do_send_branches_def send_standard_def
      split: prod.splits sum.splits)

lemma request_never_registers: "\<exists>e. fst (request message_or_type timeout predicate st) = Inl e"
  by (simp add: request_def do_send_def split: prod.splits sum.splits)

text \<open>
  C8. Sending an application-specific message while no codec is bound raises
  \<^verbatim>\<open>CommunicatorException\<close> and leaves the communicator, and with it the trace of the
  transport, as it was.
\<close>

theorem send_without_codec:
  "codec st = None \<Longrightarrow>
     send (VMessage msg) st = (Inl CommunicatorException, st)
     \<and> sent (ch (snd (send (VMessage msg) st))) = sent (ch st)"
  by (simp add: send_def do_send_def do_send_branches_def)

theorem send_without_codec_witness:
  "codec fresh = None
   \<and> send (VMessage (Message (MessageType 1) [])) fresh = (Inl CommunicatorException, fresh)
   \<and> sent (ch (snd (send (VMessage (Message (MessageType 1) [])) fresh))) = []"
  using send_without_codec[of fresh "Message (MessageType 1) []"] by (simp add: fresh_def)

section \<open>Identity matching: theorems\<close>

text \<open>
  C10. For a combination of reference and candidate that the type dispatch does not
  cover, \<^verbatim>\<open>_match_message\<close> returns \<^verbatim>\<open>None\<close>, which is not a true value, so the composite
  predicate does not match; the function has no \<^verbatim>\<open>raise\<close> and its model no error
  result. The combinations are exactly those outside \<open>recognised\<close>.
\<close>

theorem match_message_unrecognised:
  "(match_message reference candidate = None) = (\<not> recognised reference candidate)
   \<and> match_message (VMessage a) (Std s) = None
   \<and> match_message (VMessageType t) (Std s) = None
   \<and> match_message (VStandard r) (App c) = None
   \<and> match_message (VType k) (App c) = None
   \<and> match_message VOther candidate = None
   \<and> \<not> truthy None
   \<and> (if recognised reference candidate then True
       else super_predicate reference predicate candidate = (None, []))"
  by (auto simp add: match_message_def recognised_def eliminate_prototype_def truthy_def
      super_predicate_def split: any_message.splits py_value.splits)

section \<open>The dispatch core: theorems\<close>

lemma match_pending_result:
  "fst (match_pending item m es a st) = Inr (a \<or> list_ex (matches m (futures st)) es)"
proof (induction es arbitrary: a st)
  case Nil
  then show ?case by simp
next
  case (Cons e es)
  obtain p f where e: "e = (p, f)" by (cases e)
  show ?case
    by (simp add: e Cons.IH matches_def future_done_def set_result_def split: prod.splits)
qed

lemma match_pending_shape:
  "\<exists>st'. match_pending item m es a st = (Inr (a \<or> list_ex (matches m (futures st)) es), st')"
  using match_pending_result[of item m es a st] by (cases "match_pending item m es a st") simp

lemma match_pending_futures:
  "futures (snd (match_pending item m es a st)) =
     (\<lambda>f. if list_ex (\<lambda>e. snd e = f \<and> matches m (futures st) e) es
          then Finished m else futures st f)"
proof (induction es arbitrary: a st)
  case Nil
  then show ?case by simp
next
  case (Cons e es)
  obtain p f where e: "e = (p, f)" by (cases e)
  show ?case
    apply (simp add: e Cons.IH matches_def future_done_def set_result_def split: prod.splits)
    apply (auto simp add: list_ex_iff fun_eq_iff)
    done
qed

lemma match_pending_frame:
  "ch (snd (match_pending item m es a st)) = ch st
   \<and> codec (snd (match_pending item m es a st)) = codec st
   \<and> log_queue (snd (match_pending item m es a st)) = log_queue st
   \<and> message_queue (snd (match_pending item m es a st)) = message_queue st
   \<and> pending_requests (snd (match_pending item m es a st)) = pending_requests st
   \<and> next_future (snd (match_pending item m es a st)) = next_future st"
proof (induction es arbitrary: a st)
  case Nil
  then show ?case by simp
next
  case (Cons e es)
  obtain p f where e: "e = (p, f)" by (cases e)
  show ?case
    by (simp add: e Cons.IH set_result_def future_done_def split: prod.splits)
qed

lemma process_received_item_decoded:
  "decoded item st = Some m \<Longrightarrow> process_received_item item st = dispatch item m st"
  by (auto simp add: decoded_def process_received_item_def
      split: item.splits option.splits sum.splits)

lemma dispatch_result: "fst (dispatch item m st) = Inr ()"
proof -
  obtain st' where "match_pending item m (pending_requests st) False st
      = (Inr (False \<or> list_ex (matches m (futures st)) (pending_requests st)), st')"
    using match_pending_shape by blast
  then show ?thesis by (simp add: dispatch_def)
qed

lemma dispatch_futures:
  "futures (snd (dispatch item m st)) =
     (\<lambda>f. if list_ex (\<lambda>e. snd e = f \<and> matches m (futures st) e) (pending_requests st)
          then Finished m else futures st f)"
proof -
  obtain st' where mp: "match_pending item m (pending_requests st) False st
      = (Inr (False \<or> list_ex (matches m (futures st)) (pending_requests st)), st')"
    using match_pending_shape by blast
  have "futures st' =
     (\<lambda>f. if list_ex (\<lambda>e. snd e = f \<and> matches m (futures st) e) (pending_requests st)
          then Finished m else futures st f)"
    using match_pending_futures[of item m "pending_requests st" False st] by (simp add: mp)
  then show ?thesis by (simp add: dispatch_def mp)
qed

lemma dispatch_message_queue:
  "message_queue (snd (dispatch item m st)) =
     (if list_ex (matches m (futures st)) (pending_requests st) then message_queue st
      else message_queue st @ [m])"
proof -
  obtain st' where mp: "match_pending item m (pending_requests st) False st
      = (Inr (False \<or> list_ex (matches m (futures st)) (pending_requests st)), st')"
    using match_pending_shape by blast
  have "message_queue st' = message_queue st"
    using match_pending_frame[of item m "pending_requests st" False st] by (simp add: mp)
  then show ?thesis by (simp add: dispatch_def mp)
qed

text \<open>
  C2. When the received item yields a message \<open>m\<close>, the call returns normally; every
  entry whose future is not done and whose predicate is true of \<open>m\<close> has its future
  completed with \<open>m\<close>, however many such entries there are; a future with no such entry
  is left as it was; and \<open>m\<close> is appended to the message queue exactly when no entry
  matched.
\<close>

theorem process_received_item_completes_matching:
  assumes "decoded item st = Some m"
  shows "fst (process_received_item item st) = Inr ()
    \<and> (\<forall>e \<in> set (pending_requests st).
          matches m (futures st) e
          \<longrightarrow> futures (snd (process_received_item item st)) (snd e) = Finished m)
    \<and> (\<forall>f. \<not> list_ex (\<lambda>e. snd e = f \<and> matches m (futures st) e) (pending_requests st)
          \<longrightarrow> futures (snd (process_received_item item st)) f = futures st f)
    \<and> message_queue (snd (process_received_item item st)) =
        (if list_ex (matches m (futures st)) (pending_requests st) then message_queue st
         else message_queue st @ [m])"
proof -
  have eq: "process_received_item item st = dispatch item m st"
    using assms by (rule process_received_item_decoded)
  show ?thesis
    unfolding eq
    by (auto simp add: dispatch_result dispatch_futures dispatch_message_queue list_ex_iff)
qed

theorem process_received_item_completes_matching_witness:
  "decoded (ItemStandard node_info) three_pending = Some (Std node_info)
   \<and> fst (process_received_item (ItemStandard node_info) three_pending) = Inr ()
   \<and> futures (snd (process_received_item (ItemStandard node_info) three_pending)) 0
       = Finished (Std node_info)
   \<and> futures (snd (process_received_item (ItemStandard node_info) three_pending)) 1
       = Finished (Std node_info)
   \<and> futures (snd (process_received_item (ItemStandard node_info) three_pending)) 2 = Pending
   \<and> message_queue (snd (process_received_item (ItemStandard node_info) three_pending)) = []
   \<and> message_queue (snd (process_received_item (ItemStandard node_info) fresh))
       = [Std node_info]"
  using process_received_item_completes_matching
          [of "ItemStandard node_info" three_pending "Std node_info"]
        process_received_item_completes_matching
          [of "ItemStandard node_info" fresh "Std node_info"]
  by (simp add: decoded_def three_pending_def fresh_def matches_def future_done_def truthy_def
      super_predicate_def match_message_def eliminate_prototype_def isinstance_def
      node_info_def)

section \<open>The composite predicate: theorems\<close>




section \<open>Errors while an item is processed: theorems\<close>

lemma dispatch_ch: "ch (snd (dispatch item m st)) = ch st"
proof -
  obtain st' where mp: "match_pending item m (pending_requests st) False st
      = (Inr (False \<or> list_ex (matches m (futures st)) (pending_requests st)), st')"
    using match_pending_shape by blast
  have "ch st' = ch st"
    using match_pending_frame[of item m "pending_requests st" False st] by (simp add: mp)
  then show ?thesis by (simp add: dispatch_def mp)
qed

lemma process_received_item_ch: "ch (snd (process_received_item item st)) = ch st"
  by (simp add: process_received_item_def dispatch_ch split: item.splits option.splits sum.splits)

lemma process_received_item_returns:
  "item \<noteq> ItemOther \<Longrightarrow> fst (process_received_item item st) = Inr ()"
  by (simp add: process_received_item_def dispatch_result split: item.splits option.splits sum.splits)

text \<open>
  C4, as stated: no transient error is propagated out of \<^verbatim>\<open>_process_received_item\<close>.
  This fails for an item of an unexpected type: line 123 raises \<^verbatim>\<open>TypeError\<close> to the
  caller and nothing is logged.
\<close>

theorem unexpected_item_propagates_counterexample:
  "fst (process_received_item ItemOther fresh) = Inl TypeError
   \<and> logger (snd (process_received_item ItemOther fresh)) = []"
  by (simp add: process_received_item_def fresh_def)

text \<open>
  C4, amended. A decode failure is logged as a warning and the item is dropped: the
  call returns normally and only the log has changed. An exception raised by a caller's
  predicate is swallowed by the composite predicate, which logs it when the predicate
  was evaluated and returns no true value. For every item that is a standard message or
  a frame the call returns normally. An item of another type makes the call raise
  \<^verbatim>\<open>TypeError\<close> and leaves the communicator as it was. In every case the channel is
  left as it was.
\<close>

theorem transient_errors_contained:
  "(codec st = Some c \<and> decode c fr = Inl e
      \<longrightarrow> process_received_item (ItemFrame fr) st
          = (Inr (), st\<lparr>logger := logger st @ [WarningCouldNotDecode (ItemFrame fr)]\<rparr>))
   \<and> (predicate m = Inl ex
      \<longrightarrow> super_predicate reference predicate m
          = (None, if truthy (match_message reference m)
                   then [ErrorResponsePredicate reference ex] else []))
   \<and> (item \<noteq> ItemOther \<longrightarrow> fst (process_received_item item st) = Inr ())
   \<and> process_received_item ItemOther st = (Inl TypeError, st)
   \<and> ch (snd (process_received_item item st)) = ch st"
  by (simp add: process_received_item_ch process_received_item_returns)
     (simp add: process_received_item_def super_predicate_def)

theorem transient_errors_contained_witness:
  "codec (fresh\<lparr>codec := Some failing_codec\<rparr>) = Some failing_codec
   \<and> decode failing_codec (ReceivedFrame 7 [1, 2]) = Inl ValueError
   \<and> process_received_item (ItemFrame (ReceivedFrame 7 [1, 2])) (fresh\<lparr>codec := Some failing_codec\<rparr>)
       = (Inr (), fresh\<lparr>codec := Some failing_codec,
                        logger := [WarningCouldNotDecode (ItemFrame (ReceivedFrame 7 [1, 2]))]\<rparr>)
   \<and> super_predicate (VStandard node_info) (\<lambda>_. Inl (OtherException ''boom'')) (Std node_info)
       = (None, [ErrorResponsePredicate (VStandard node_info) (OtherException ''boom'')])
   \<and> ItemStandard node_info \<noteq> ItemOther
   \<and> fst (process_received_item (ItemStandard node_info) (fresh\<lparr>codec := Some failing_codec\<rparr>)) = Inr ()"
  using transient_errors_contained[of "fresh\<lparr>codec := Some failing_codec\<rparr>" failing_codec "ReceivedFrame 7 [1, 2]" ValueError
           "\<lambda>_. Inl (OtherException ''boom'')" "Std node_info" "OtherException ''boom''"
           "VStandard node_info" "ItemStandard node_info"]
  by (simp add: fresh_def failing_codec_def match_message_def eliminate_prototype_def
      isinstance_def truthy_def node_info_def)

lemma match_pending_logger_mono:
  "set (logger st) \<subseteq> set (logger (snd (match_pending item m es a st)))"
proof (induction es arbitrary: a st)
  case Nil
  then show ?case by simp
next
  case (Cons e es)
  obtain p f where e: "e = (p, f)" by (cases e)
  show ?case
  proof (cases "future_done (futures st) f")
    case True
    then show ?thesis using Cons.IH by (simp add: e)
  next
    case False
    obtain v lg where c: "call p m = (v, lg)" by (cases "call p m")
    show ?thesis
    proof (cases "truthy v")
      case True
      have "set (logger (st\<lparr>logger := logger st @ lg @ [DebugMatchingResponse item f],
                           futures := (futures st)(f := Finished m)\<rparr>))
            \<subseteq> set (logger (snd (match_pending item m es True
                 (st\<lparr>logger := logger st @ lg @ [DebugMatchingResponse item f],
                           futures := (futures st)(f := Finished m)\<rparr>))))"
        by (rule Cons.IH)
      with True False show ?thesis
        by (auto simp add: e c set_result_def future_done_def)
    next
      case nt: False
      have "set (logger (st\<lparr>logger := logger st @ lg\<rparr>))
            \<subseteq> set (logger (snd (match_pending item m es a (st\<lparr>logger := logger st @ lg\<rparr>))))"
        by (rule Cons.IH)
      with nt False show ?thesis
        by (auto simp add: e c)
    qed
  qed
qed

lemma match_pending_logs_call:
  "(cl, fut) \<in> set es \<Longrightarrow> distinct (map snd es) \<Longrightarrow> \<not> future_done (futures st) fut
   \<Longrightarrow> set (snd (call cl m)) \<subseteq> set (logger (snd (match_pending item m es a st)))"
proof (induction es arbitrary: a st)
  case Nil
  then show ?case by simp
next
  case (Cons e es)
  obtain p f where e: "e = (p, f)" by (cases e)
  obtain v lg where c: "call p m = (v, lg)" by (cases "call p m")
  show ?case
  proof (cases "(cl, fut) = (p, f)")
    case True
    have nd: "\<not> future_done (futures st) f" using True Cons.prems(3) by simp
    show ?thesis
    proof (cases "truthy v")
      case tv: True
      have "set (logger (st\<lparr>logger := logger st @ lg @ [DebugMatchingResponse item f],
                           futures := (futures st)(f := Finished m)\<rparr>))
            \<subseteq> set (logger (snd (match_pending item m es True
                 (st\<lparr>logger := logger st @ lg @ [DebugMatchingResponse item f],
                           futures := (futures st)(f := Finished m)\<rparr>))))"
        by (rule match_pending_logger_mono)
      with tv nd True show ?thesis
        by (auto simp add: e c set_result_def future_done_def)
    next
      case ntv: False
      have "set (logger (st\<lparr>logger := logger st @ lg\<rparr>))
            \<subseteq> set (logger (snd (match_pending item m es a (st\<lparr>logger := logger st @ lg\<rparr>))))"
        by (rule match_pending_logger_mono)
      with ntv nd True show ?thesis
        by (auto simp add: e c)
    qed
  next
    case False
    then have mem: "(cl, fut) \<in> set es" using Cons.prems(1) by (auto simp add: e)
    have dist: "distinct (map snd es)" using Cons.prems(2) by simp
    have ne: "f \<noteq> fut" using Cons.prems(2) mem by (force simp add: e)
    have ih: "\<And>a' st'. \<not> future_done (futures st') fut \<Longrightarrow>
       set (snd (call cl m)) \<subseteq> set (logger (snd (match_pending item m es a' st')))"
      using Cons.IH[OF mem dist] by blast
    show ?thesis
    proof (cases "future_done (futures st) f")
      case True
      then show ?thesis using ih[OF Cons.prems(3)] by (simp add: e)
    next
      case nd: False
      show ?thesis
      proof (cases "truthy v")
        case True
        have "set (snd (call cl m)) \<subseteq> set (logger (snd (match_pending item m es True
                 (st\<lparr>logger := logger st @ lg @ [DebugMatchingResponse item f],
                           futures := (futures st)(f := Finished m)\<rparr>))))"
          using Cons.prems(3) ne by (intro ih) (simp add: future_done_def)
        with True nd show ?thesis
          by (simp add: e c set_result_def future_done_def)
      next
        case False
        have "set (snd (call cl m)) \<subseteq> set (logger (snd (match_pending item m es a
                 (st\<lparr>logger := logger st @ lg\<rparr>))))"
          using Cons.prems(3) by (intro ih) simp
        with False nd show ?thesis
          by (simp add: e c)
      qed
    qed
  qed
qed

lemma dispatch_logger:
  "logger (snd (dispatch item m st))
     = logger (snd (match_pending item m (pending_requests st) False st))"
proof -
  obtain st' where mp: "match_pending item m (pending_requests st) False st
      = (Inr (False \<or> list_ex (matches m (futures st)) (pending_requests st)), st')"
    using match_pending_shape by blast
  then show ?thesis by (simp add: dispatch_def mp)
qed

lemma distinct_snd_unique:
  "distinct (map snd es) \<Longrightarrow> (a, k) \<in> set es \<Longrightarrow> (b, k) \<in> set es \<Longrightarrow> a = b"
  by (induction es) force+

text \<open>
  C9. Let an entry of the pending set have a future that is not done and a caller's
  predicate that raises on the message, the identity gate being passed. Then the
  composite predicate returns no true value and logs the exception; the entry does not
  match; the call returns normally; the exception is in the log afterwards; the future
  of the entry is left as it was; and all futures and the message queue end as they
  would have if the entry had not been in the pending set.
\<close>

theorem raising_predicate_is_contained:
  assumes dec: "decoded item st = Some m"
      and raises: "predicate m = Inl ex"
      and gate: "truthy (match_message message_or_type m)"
      and e: "e = (SuperPredicate message_or_type predicate, future)"
      and mem: "e \<in> set (pending_requests st)"
      and wfst: "well_formed st"
      and pend: "\<not> future_done (futures st) future"
  shows "super_predicate message_or_type predicate m
           = (None, [ErrorResponsePredicate message_or_type ex])
    \<and> \<not> matches m (futures st) e
    \<and> fst (process_received_item item st) = Inr ()
    \<and> ErrorResponsePredicate message_or_type ex
        \<in> set (logger (snd (process_received_item item st)))
    \<and> futures (snd (process_received_item item st)) future = futures st future
    \<and> futures (snd (process_received_item item st))
        = futures (snd (process_received_item item
                          (st\<lparr>pending_requests := removeAll e (pending_requests st)\<rparr>)))
    \<and> message_queue (snd (process_received_item item st))
        = message_queue (snd (process_received_item item
                          (st\<lparr>pending_requests := removeAll e (pending_requests st)\<rparr>)))"
proof -
  let ?st0 = "st\<lparr>pending_requests := removeAll e (pending_requests st)\<rparr>"
  have sp: "super_predicate message_or_type predicate m
           = (None, [ErrorResponsePredicate message_or_type ex])"
    using raises gate by (simp add: super_predicate_def)
  have nm: "\<not> matches m (futures st) e"
    by (simp add: matches_def e sp truthy_def)
  have eq: "process_received_item item st = dispatch item m st"
    using dec by (rule process_received_item_decoded)
  have "decoded item ?st0 = decoded item st" by (cases item) (simp_all add: decoded_def)
  then have "decoded item ?st0 = Some m" using dec by simp
  then have eq0: "process_received_item item ?st0 = dispatch item m ?st0"
    by (rule process_received_item_decoded)
  have dist: "distinct (map snd (pending_requests st))" using wfst
    by (simp add: well_formed_def)
  have "set (snd (call (SuperPredicate message_or_type predicate) m))
          \<subseteq> set (logger (snd (match_pending item m (pending_requests st) False st)))"
    using mem dist pend unfolding e by (rule match_pending_logs_call)
  then have lg: "ErrorResponsePredicate message_or_type ex
        \<in> set (logger (snd (process_received_item item st)))"
    by (simp add: eq dispatch_logger sp)
  have only: "\<And>e'. e' \<in> set (pending_requests st) \<Longrightarrow> snd e' = future \<Longrightarrow> e' = e"
  proof -
    fix e' assume a: "e' \<in> set (pending_requests st)" "snd e' = future"
    obtain c' where e': "e' = (c', future)" using a(2) by (cases e') simp
    have "c' = SuperPredicate message_or_type predicate"
      using distinct_snd_unique[OF dist] a(1) mem unfolding e e' by blast
    then show "e' = e" by (simp add: e e')
  qed
  have same: "futures (snd (process_received_item item st)) future = futures st future"
    using nm only by (auto simp add: eq dispatch_futures list_ex_iff)
  have ex_eq: "\<And>P. list_ex (\<lambda>x. P x \<and> matches m (futures st) x) (removeAll e (pending_requests st))
                 = list_ex (\<lambda>x. P x \<and> matches m (futures st) x) (pending_requests st)"
    using nm by (auto simp add: list_ex_iff)
  have f_eq: "futures (snd (process_received_item item st))
        = futures (snd (process_received_item item ?st0))"
    by (simp add: eq eq0 dispatch_futures ex_eq cong: if_cong)
  have q_eq: "message_queue (snd (process_received_item item st))
        = message_queue (snd (process_received_item item ?st0))"
    using ex_eq[of "\<lambda>_. True"] by (simp add: eq eq0 dispatch_message_queue cong: if_cong)
  show ?thesis
    using sp nm lg same f_eq q_eq by (simp add: eq dispatch_result)
qed

theorem raising_predicate_is_contained_witness:
  "decoded (ItemStandard node_info) raising_pending = Some (Std node_info)
   \<and> truthy (match_message (VStandard node_info) (Std node_info))
   \<and> well_formed raising_pending
   \<and> \<not> future_done (futures raising_pending) 0
   \<and> fst (process_received_item (ItemStandard node_info) raising_pending) = Inr ()
   \<and> ErrorResponsePredicate (VStandard node_info) (OtherException ''boom'')
        \<in> set (logger (snd (process_received_item (ItemStandard node_info) raising_pending)))
   \<and> futures (snd (process_received_item (ItemStandard node_info) raising_pending)) 0 = Pending
   \<and> futures (snd (process_received_item (ItemStandard node_info) raising_pending)) 1
       = Finished (Std node_info)
   \<and> message_queue (snd (process_received_item (ItemStandard node_info) raising_pending)) = []"
proof -
  have d: "decoded (ItemStandard node_info) raising_pending = Some (Std node_info)"
    by (simp add: decoded_def)
  have g: "truthy (match_message (VStandard node_info) (Std node_info))"
    by (simp add: match_message_def eliminate_prototype_def isinstance_def truthy_def)
  have w: "well_formed raising_pending" by (simp add: well_formed_def raising_pending_def fresh_def)
  have p: "\<not> future_done (futures raising_pending) 0"
    by (simp add: future_done_def raising_pending_def fresh_def)
  have m: "(SuperPredicate (VStandard node_info) (\<lambda>_. Inl (OtherException ''boom'')), 0)
             \<in> set (pending_requests raising_pending)"
    by (simp add: raising_pending_def)
  have fp: "futures raising_pending 0 = Pending" by (simp add: raising_pending_def fresh_def)
  note t = raising_predicate_is_contained[where item="ItemStandard node_info" and st=raising_pending and m="Std node_info"
      and predicate="\<lambda>_. Inl (OtherException ''boom'')" and ex="OtherException ''boom''"
      and message_or_type="VStandard node_info" and future=0
      and e="(SuperPredicate (VStandard node_info) (\<lambda>_. Inl (OtherException ''boom'')), 0)"]
  have f1: "futures (snd (process_received_item (ItemStandard node_info) raising_pending)) 1
       = Finished (Std node_info)"
    by (simp add: process_received_item_def dispatch_def raising_pending_def fresh_def
        future_done_def super_predicate_def match_message_def eliminate_prototype_def
        isinstance_def truthy_def set_result_def node_info_def)
  have q: "message_queue (snd (process_received_item (ItemStandard node_info) raising_pending)) = []"
    by (simp add: process_received_item_def dispatch_def raising_pending_def fresh_def
        future_done_def super_predicate_def match_message_def eliminate_prototype_def
        isinstance_def truthy_def set_result_def node_info_def)
  have r: "(\<lambda>_::any_message. Inl (OtherException ''boom'') :: py_error + bool) (Std node_info)
             = Inl (OtherException ''boom'')" by simp
  note t2 = t[OF d r g refl m w p]
  have a: "fst (process_received_item (ItemStandard node_info) raising_pending) = Inr ()"
    using t2 by blast
  have b: "ErrorResponsePredicate (VStandard node_info) (OtherException ''boom'')
        \<in> set (logger (snd (process_received_item (ItemStandard node_info) raising_pending)))"
    using t2 by blast
  have c: "futures (snd (process_received_item (ItemStandard node_info) raising_pending)) 0
             = futures raising_pending 0"
    using t2 by blast
  show ?thesis using d g w p a b c f1 q fp
    by simp
qed

section \<open>The IO worker: theorems\<close>

lemma try_body_raises: "fst (try_body utf8 p w) = try_raises p"
  by (simp add: try_body_def try_raises_def Let_def split: received.splits option.splits)

lemma try_body_frame:
  "wch (snd (try_body utf8 p w)) = wch w \<and> error_counter (snd (try_body utf8 p w)) = error_counter w"
  by (simp add: try_body_def Let_def split: received.splits option.splits)

lemma thread_loop_error:
  assumes "is_open (wch w)" "\<not> closed_outside p" "try_raises p = Some ex"
    "ex \<noteq> ChannelClosedException"
  shows "thread_loop utf8 (p # ps) w =
     (let w1 = snd (try_body utf8 p w);
          w2 = w1\<lparr>error_counter := error_counter w + 1,
                  wlogger := wlogger w1 @ [ErrorUnhandledIOWorker (error_counter w + 1) ex]\<rparr>
      in if error_counter w + 1 > IO_WORKER_ERROR_LIMIT
         then (Some TooManyErrors, w2\<lparr>wlogger := wlogger w2 @ [ErrorTooManyErrors]\<rparr>)
         else thread_loop utf8 ps w2)"
proof -
  obtain w1 where t: "try_body utf8 p w = (Some ex, w1)"
    using try_body_raises[of utf8 p w] assms(3) by (cases "try_body utf8 p w") simp
  have "error_counter w1 = error_counter w"
    using try_body_frame[of utf8 p w] by (simp add: t)
  then show ?thesis using assms by (simp add: t Let_def)
qed

lemma thread_loop_success:
  assumes "is_open (wch w)" "\<not> closed_outside p" "try_raises p = None"
  shows "thread_loop utf8 (p # ps) w
           = thread_loop utf8 ps ((snd (try_body utf8 p w))\<lparr>error_counter := 0\<rparr>)"
proof -
  obtain w1 where t: "try_body utf8 p w = (None, w1)"
    using try_body_raises[of utf8 p w] assms(3) by (cases "try_body utf8 p w") simp
  then show ?thesis using assms by (simp add: t)
qed

declare thread_loop.simps(2) [simp del]

lemma thread_loop_keeps_running:
  "is_open (wch w) \<Longrightarrow> list_all failing ps
   \<Longrightarrow> error_counter w + length ps \<le> IO_WORKER_ERROR_LIMIT
   \<Longrightarrow> fst (thread_loop utf8 ps w) = None
       \<and> error_counter (snd (thread_loop utf8 ps w)) = error_counter w + length ps"
proof (induction ps arbitrary: w)
  case Nil
  then show ?case by simp
next
  case (Cons p ps)
  from Cons.prems(2) have fp: "failing p" and fl: "list_all failing ps"
    by simp_all
  from fp have np: "\<not> closed_outside p" by (simp add: failing_def)
  from fp obtain ex where ex: "try_raises p = Some ex" "ex \<noteq> ChannelClosedException"
    by (auto simp add: failing_def split: option.splits)
  let ?w1 = "snd (try_body utf8 p w)"
  let ?w2 = "?w1\<lparr>error_counter := error_counter w + 1,
                  wlogger := wlogger ?w1 @ [ErrorUnhandledIOWorker (error_counter w + 1) ex]\<rparr>"
  have step: "thread_loop utf8 (p # ps) w = thread_loop utf8 ps ?w2"
    using thread_loop_error[OF Cons.prems(1) np ex, of utf8 ps] Cons.prems(3)
    by (simp add: Let_def)
  have op: "is_open (wch ?w2)" using Cons.prems(1) try_body_frame[of utf8 p w] by simp
  have le: "error_counter ?w2 + length ps \<le> IO_WORKER_ERROR_LIMIT" using Cons.prems(3) by simp
  show ?case using Cons.IH[OF op fl le] by (simp add: step)
qed

lemma thread_loop_gives_up:
  "is_open (wch w) \<Longrightarrow> list_all failing ps \<Longrightarrow> error_counter w \<le> IO_WORKER_ERROR_LIMIT
   \<Longrightarrow> error_counter w + length ps > IO_WORKER_ERROR_LIMIT
   \<Longrightarrow> fst (thread_loop utf8 (ps @ rest) w) = Some TooManyErrors"
proof (induction ps arbitrary: w)
  case Nil
  then show ?case by simp
next
  case (Cons p ps)
  from Cons.prems(2) have fp: "failing p" and fl: "list_all failing ps"
    by simp_all
  from fp have np: "\<not> closed_outside p" by (simp add: failing_def)
  from fp obtain ex where ex: "try_raises p = Some ex" "ex \<noteq> ChannelClosedException"
    by (auto simp add: failing_def split: option.splits)
  let ?w1 = "snd (try_body utf8 p w)"
  let ?w2 = "?w1\<lparr>error_counter := error_counter w + 1,
                  wlogger := wlogger ?w1 @ [ErrorUnhandledIOWorker (error_counter w + 1) ex]\<rparr>"
  note st = thread_loop_error[OF Cons.prems(1) np ex, of utf8 "ps @ rest"]
  show ?case
  proof (cases "error_counter w + 1 > IO_WORKER_ERROR_LIMIT")
    case True
    then show ?thesis using st by (simp add: Let_def)
  next
    case False
    then have step: "thread_loop utf8 (p # ps @ rest) w = thread_loop utf8 (ps @ rest) ?w2"
      using st by (simp add: Let_def)
    have op: "is_open (wch ?w2)" using Cons.prems(1) try_body_frame[of utf8 p w] by simp
    have le: "error_counter ?w2 \<le> IO_WORKER_ERROR_LIMIT" using False by simp
    have gt: "error_counter ?w2 + length ps > IO_WORKER_ERROR_LIMIT" using Cons.prems(4) by simp
    show ?thesis using Cons.IH[OF op fl le gt] by (simp add: step)
  qed
qed

lemma thread_loop_stops_closed_or_closes:
  "fst (thread_entry utf8 ps w) = Some cause \<Longrightarrow> \<not> is_open (wch (snd (thread_entry utf8 ps w)))"
  by (simp add: thread_entry_def close_def split: prod.splits option.splits)

text \<open>
  C7. While the channel is open: a pass whose \<^verbatim>\<open>try\<close> body raises anything but the
  channel-closed signal increments the counter, and the loop goes on unless the counter
  now exceeds 100; a pass that completes sets the counter to zero and the loop goes on.
  From the start of the thread, up to 100 consecutive failing passes leave the loop
  running and the next one stops it. Whenever \<^verbatim>\<open>_thread_entry\<close> ends, whatever the
  cause, the channel is closed.
\<close>

theorem io_worker_error_limit:
  "(is_open (wch w) \<and> \<not> closed_outside p \<and> try_raises p = Some ex
      \<and> ex \<noteq> ChannelClosedException
      \<longrightarrow> (if error_counter w + 1 > 100
           then fst (thread_loop utf8 (p # ps) w) = Some TooManyErrors
           else thread_loop utf8 (p # ps) w
                = thread_loop utf8 ps
                    ((snd (try_body utf8 p w))
                       \<lparr>error_counter := error_counter w + 1,
                        wlogger := wlogger (snd (try_body utf8 p w))
                                   @ [ErrorUnhandledIOWorker (error_counter w + 1) ex]\<rparr>)))
   \<and> (is_open (wch w) \<and> \<not> closed_outside p \<and> try_raises p = None
      \<longrightarrow> thread_loop utf8 (p # ps) w
          = thread_loop utf8 ps ((snd (try_body utf8 p w))\<lparr>error_counter := 0\<rparr>))
   \<and> (is_open (wch w) \<and> list_all failing fs \<and> length fs \<le> 100
      \<longrightarrow> fst (thread_entry utf8 fs w) = None)
   \<and> (is_open (wch w) \<and> list_all failing fs \<and> length fs > 100
      \<longrightarrow> fst (thread_entry utf8 (fs @ rest) w) = Some TooManyErrors)
   \<and> (fst (thread_entry utf8 ps w) = Some cause
      \<longrightarrow> \<not> is_open (wch (snd (thread_entry utf8 ps w))))"
proof -
  have a: "is_open (wch w) \<and> \<not> closed_outside p \<and> try_raises p = Some ex
      \<and> ex \<noteq> ChannelClosedException
      \<longrightarrow> (if error_counter w + 1 > 100
           then fst (thread_loop utf8 (p # ps) w) = Some TooManyErrors
           else thread_loop utf8 (p # ps) w
                = thread_loop utf8 ps
                    ((snd (try_body utf8 p w))
                       \<lparr>error_counter := error_counter w + 1,
                        wlogger := wlogger (snd (try_body utf8 p w))
                                   @ [ErrorUnhandledIOWorker (error_counter w + 1) ex]\<rparr>))"
    using thread_loop_error[of w p ex utf8 ps] by (simp add: Let_def IO_WORKER_ERROR_LIMIT_def)
  have b: "is_open (wch w) \<and> \<not> closed_outside p \<and> try_raises p = None
      \<longrightarrow> thread_loop utf8 (p # ps) w
          = thread_loop utf8 ps ((snd (try_body utf8 p w))\<lparr>error_counter := 0\<rparr>)"
    using thread_loop_success[of w p utf8 ps] by blast
  have c: "is_open (wch w) \<and> list_all failing fs \<and> length fs \<le> 100
      \<longrightarrow> fst (thread_entry utf8 fs w) = None"
  proof
    assume h: "is_open (wch w) \<and> list_all failing fs \<and> length fs \<le> 100"
    then have "fst (thread_loop utf8 fs (w\<lparr>error_counter := 0\<rparr>)) = None"
      using thread_loop_keeps_running[of "w\<lparr>error_counter := 0\<rparr>" fs utf8]
      by (simp add: IO_WORKER_ERROR_LIMIT_def)
    then show "fst (thread_entry utf8 fs w) = None"
      by (auto simp add: thread_entry_def split: prod.splits option.splits)
  qed
  have d: "is_open (wch w) \<and> list_all failing fs \<and> length fs > 100
      \<longrightarrow> fst (thread_entry utf8 (fs @ rest) w) = Some TooManyErrors"
  proof
    assume h: "is_open (wch w) \<and> list_all failing fs \<and> length fs > 100"
    then have "fst (thread_loop utf8 (fs @ rest) (w\<lparr>error_counter := 0\<rparr>)) = Some TooManyErrors"
      using thread_loop_gives_up[of "w\<lparr>error_counter := 0\<rparr>" fs utf8 rest]
      by (simp add: IO_WORKER_ERROR_LIMIT_def)
    then show "fst (thread_entry utf8 (fs @ rest) w) = Some TooManyErrors"
      by (auto simp add: thread_entry_def split: prod.splits option.splits)
  qed
  have e: "fst (thread_entry utf8 ps w) = Some cause
      \<longrightarrow> \<not> is_open (wch (snd (thread_entry utf8 ps w)))"
    using thread_loop_stops_closed_or_closes by blast
  show ?thesis using a b c d e by blast
qed

theorem io_worker_error_limit_witness:
  "is_open (wch new_worker) \<and> \<not> closed_outside io_error
   \<and> try_raises io_error = Some (OtherException ''io'')
   \<and> try_raises idle = None
   \<and> error_counter (snd (thread_loop (\<lambda>_. []) [io_error] new_worker)) = 1
   \<and> error_counter (snd (thread_loop (\<lambda>_. []) [io_error, idle] new_worker)) = 0
   \<and> list_all failing (replicate 100 io_error)
   \<and> fst (thread_entry (\<lambda>_. []) (replicate 100 io_error) new_worker) = None
   \<and> list_all failing (replicate 101 io_error)
   \<and> fst (thread_entry (\<lambda>_. []) (replicate 101 io_error @ [idle]) new_worker)
       = Some TooManyErrors
   \<and> \<not> is_open (wch (snd (thread_entry (\<lambda>_. []) (replicate 101 io_error @ [idle]) new_worker)))"
proof -
  have o: "is_open (wch new_worker)" by (simp add: new_worker_def)
  have n: "\<not> closed_outside io_error" by (simp add: io_error_def)
  have r: "try_raises io_error = Some (OtherException ''io'')"
    by (simp add: try_raises_def io_error_def)
  have i: "try_raises idle = None" "\<not> closed_outside idle"
    by (simp_all add: try_raises_def idle_def)
  have f: "failing io_error" by (simp add: failing_def r n)
  have f100: "list_all failing (replicate 100 io_error)"
    and f101: "list_all failing (replicate 101 io_error)"
    using f by (simp_all add: list_all_iff)
  note t1 = io_worker_error_limit[of new_worker io_error "OtherException ''io''" "\<lambda>_. []" "[]"
      "replicate 100 io_error" "[idle]" TooManyErrors]
  note t2 = io_worker_error_limit[of new_worker io_error "OtherException ''io''" "\<lambda>_. []" "[idle]"
      "replicate 101 io_error" "[idle]" TooManyErrors]
  note t3 = io_worker_error_limit[of "snd (thread_loop (\<lambda>_. []) [io_error] new_worker)" idle _ "\<lambda>_. []" "[]"
      "[]" "[]" TooManyErrors]
  note t4 = io_worker_error_limit[of new_worker io_error "OtherException ''io''" "\<lambda>_. []"
      "replicate 101 io_error @ [idle]" "replicate 101 io_error" "[idle]" TooManyErrors]
  have c0: "error_counter new_worker = 0" by (simp add: new_worker_def)
  have a: "thread_loop (\<lambda>_. []) [io_error] new_worker =
        (None, (snd (try_body (\<lambda>_. []) io_error new_worker))
                       \<lparr>error_counter := 1,
                        wlogger := wlogger (snd (try_body (\<lambda>_. []) io_error new_worker))
                                   @ [ErrorUnhandledIOWorker 1 (OtherException ''io'')]\<rparr>)"
    using t1 o n r by (simp add: c0)
  have b: "thread_loop (\<lambda>_. []) [io_error, idle] new_worker =
        thread_loop (\<lambda>_. []) [idle] (snd (thread_loop (\<lambda>_. []) [io_error] new_worker))"
    using t2 o n r by (simp add: c0 a)
  have op1: "is_open (wch (snd (thread_loop (\<lambda>_. []) [io_error] new_worker)))"
    using o try_body_frame[of "\<lambda>_. []" io_error new_worker] by (simp add: a)
  have c: "error_counter (snd (thread_loop (\<lambda>_. []) [io_error, idle] new_worker)) = 0"
    using t3 op1 i by (simp add: b)
  have d: "fst (thread_entry (\<lambda>_. []) (replicate 100 io_error) new_worker) = None"
    using t1 o f100 by simp
  have e: "fst (thread_entry (\<lambda>_. []) (replicate 101 io_error @ [idle]) new_worker)
       = Some TooManyErrors"
    using t2 o f101 by simp
  have g: "\<not> is_open (wch (snd (thread_entry (\<lambda>_. []) (replicate 101 io_error @ [idle]) new_worker)))"
    using t4 e by simp
  show ?thesis using o n r i f100 f101 a c d e g by simp
qed

section \<open>Requests: theorems\<close>
































end
